theory Spec2Isabelle
  imports Main "HOL-Library.Word"
begin

unbundle bit_operations_syntax

section \<open>Go values: bytes, strings, errors, panics\<close>

text \<open>
  A Go \<^verbatim>\<open>string\<close> is a sequence of bytes, as an Isabelle \<^typ>\<open>string\<close> is; a
  \<^verbatim>\<open>[]byte\<close> is a list of 8-bit words. \<^verbatim>\<open>[]byte(s)\<close> converts the one into the other.
\<close>

type_synonym byte = "8 word"
type_synonym uint = "64 word"
type_synonym uint32 = "32 word"
type_synonym uint64 = "64 word"

definition bytes_of_string :: "string \<Rightarrow> byte list" where
  "bytes_of_string s = map (\<lambda>c. of_nat (of_char c)) s"

text \<open>
  The error values the package can hand to its callers: \<^verbatim>\<open>errors.New(text)\<close>, the
  \<^verbatim>\<open>base64.CorruptInputError(offset)\<close> of the decoder, the failure of the system's random
  source, go-redis's \<^verbatim>\<open>proto.RedisError(text)\<close> (among them \<^verbatim>\<open>redis.Nil\<close>), a failure of
  the connection to the redis server, and the errors of \<^verbatim>\<open>encoding/json\<close>.
\<close>

datatype error =
    ErrorString string
  | CorruptInputError nat
  | EntropyError
  | RedisError string
  | NetError
  | JsonError string

text \<open>A run-time panic of a slice expression \<^verbatim>\<open>s[low:]\<close> with \<^verbatim>\<open>low > len(s)\<close>.\<close>

datatype runtime_panic = SliceBoundsOutOfRange nat nat

datatype 'a outcome = Returns 'a | Panics runtime_panic

section \<open>\<^verbatim>\<open>encoding/base64\<close>: \<^verbatim>\<open>URLEncoding\<close>\<close>

text \<open>
  The library's padded URL-safe encoding. \<^verbatim>\<open>Encode\<close> turns each group of three bytes into
  four characters of the alphabet and pads the last group with \<^verbatim>\<open>=\<close>.
\<close>

definition encodeURL :: string where
  "encodeURL = ''ABCDEFGHIJKLMNOPQRSTUVWXYZabcdefghijklmnopqrstuvwxyz0123456789-_''"

definition padChar :: char where
  "padChar = CHR ''=''"

definition encode :: "uint \<Rightarrow> char" where
  "encode v = encodeURL ! unat v"

fun Encode :: "byte list \<Rightarrow> string" where
  "Encode (a # b # c # src) =
     (let val = push_bit 16 (ucast a) OR push_bit 8 (ucast b) OR ucast c
      in encode (drop_bit 18 val AND 0x3F) # encode (drop_bit 12 val AND 0x3F) #
         encode (drop_bit 6 val AND 0x3F) # encode (val AND 0x3F) # Encode src)"
| "Encode [a, b] =
     (let val = push_bit 16 (ucast a) OR push_bit 8 (ucast b)
      in [encode (drop_bit 18 val AND 0x3F), encode (drop_bit 12 val AND 0x3F),
          encode (drop_bit 6 val AND 0x3F), padChar])"
| "Encode [a] =
     (let val = push_bit 16 (ucast a)
      in [encode (drop_bit 18 val AND 0x3F), encode (drop_bit 12 val AND 0x3F),
          padChar, padChar])"
| "Encode [] = []"

definition EncodeToString :: "byte list \<Rightarrow> string" where
  "EncodeToString src = Encode src"

text \<open>
  The decoder. \<^verbatim>\<open>decodeMap\<close> is the table the library builds from the alphabet: \<^verbatim>\<open>0xFF\<close>
  everywhere, then \<^verbatim>\<open>decodeMap[encoder[i]] = byte(i)\<close>.
\<close>

definition decodeMap :: "char \<Rightarrow> byte" where
  "decodeMap = fold (\<lambda>(i, c) m. m(c := of_nat i)) (enumerate 0 encodeURL) (\<lambda>_. 0xFF)"

definition isNewline :: "char \<Rightarrow> bool" where
  "isNewline c = (c = CHR 0x0A \<or> c = CHR 0x0D)"

text \<open>
  The loop \<^verbatim>\<open>for si < len(src) && (src[si] == '\n' || src[si] == '\r') { si++ }\<close>, on the
  rest \<^verbatim>\<open>src[si:]\<close> of the input and the index \<^verbatim>\<open>si\<close>.
\<close>

fun skipNewlines :: "string \<Rightarrow> nat \<Rightarrow> string \<times> nat" where
  "skipNewlines [] si = ([], si)"
| "skipNewlines (c # cs) si =
     (if isNewline c then skipNewlines cs (Suc si) else (c # cs, si))"

text \<open>
  The end of \<^verbatim>\<open>decodeQuantum\<close>: the \<^verbatim>\<open>dlen\<close> six-bit values of \<^verbatim>\<open>dbuf\<close> (the missing ones
  are zero) make \<^verbatim>\<open>dlen - 1\<close> bytes. The encoding is not strict, so the bits beyond them are
  not looked at.
\<close>

definition assemble :: "nat \<Rightarrow> byte list \<Rightarrow> byte list" where
  "assemble dlen dbuf =
     (let d = dbuf @ replicate (4 - length dbuf) 0;
          val = push_bit 18 (ucast (d ! 0)) OR push_bit 12 (ucast (d ! 1)) OR
                push_bit 6 (ucast (d ! 2)) OR (ucast (d ! 3) :: uint)
      in take (dlen - 1) [ucast (drop_bit 16 val), ucast (drop_bit 8 val), ucast val])"

text \<open>
  What follows the first \<^verbatim>\<open>=\<close> of a quantum, for \<^verbatim>\<open>j\<close> values read: newlines are skipped,
  and anything left is trailing garbage; the bytes are written all the same.
\<close>

definition afterPadding ::
  "byte list \<Rightarrow> string \<Rightarrow> nat \<Rightarrow> (string \<times> nat) \<times> byte list \<times> error option" where
  "afterPadding dbuf cs si =
     (case skipNewlines cs si of
        (rest, si') \<Rightarrow>
          ((rest, si'), assemble (length dbuf) dbuf,
           if rest \<noteq> [] then Some (CorruptInputError si') else None))"

text \<open>
  \<^verbatim>\<open>decodeQuantum\<close>: \<^verbatim>\<open>dbuf\<close> holds the \<^verbatim>\<open>j\<close> values read so far, \<^verbatim>\<open>cs\<close> is \<^verbatim>\<open>src[si:]\<close>
  and \<^verbatim>\<open>n\<close> is \<^verbatim>\<open>len(src)\<close>. The result is the input left with its index, the bytes
  written, and the error.
\<close>

fun decodeQuantum_from ::
  "nat \<Rightarrow> byte list \<Rightarrow> string \<Rightarrow> nat \<Rightarrow> (string \<times> nat) \<times> byte list \<times> error option" where
  "decodeQuantum_from n dbuf [] si =
     (if length dbuf = 0 then (([], si), [], None)
      else (([], si), [], Some (CorruptInputError (si - length dbuf))))"
| "decodeQuantum_from n dbuf (c # cs) si =
     (if decodeMap c \<noteq> 0xFF then
        (if length dbuf = 3 then ((cs, Suc si), assemble 4 (dbuf @ [decodeMap c]), None)
         else decodeQuantum_from n (dbuf @ [decodeMap c]) cs (Suc si))
      else if isNewline c then decodeQuantum_from n dbuf cs (Suc si)
      else if c \<noteq> padChar then ((cs, Suc si), [], Some (CorruptInputError si))
      else if length dbuf = 0 \<or> length dbuf = 1 then
        ((cs, Suc si), [], Some (CorruptInputError si))
      else if length dbuf = 2 then
        (case skipNewlines cs (Suc si) of
           ([], si') \<Rightarrow> (([], si'), [], Some (CorruptInputError n))
         | (c' # cs', si') \<Rightarrow>
             if c' \<noteq> padChar then ((c' # cs', si'), [], Some (CorruptInputError (si' - 1)))
             else afterPadding dbuf cs' (Suc si'))
      else afterPadding dbuf cs (Suc si))"

definition decodeQuantum ::
  "nat \<Rightarrow> string \<Rightarrow> nat \<Rightarrow> (string \<times> nat) \<times> byte list \<times> error option" where
  "decodeQuantum n cs si = decodeQuantum_from n [] cs si"

lemma skipNewlines_length:
  "skipNewlines cs si = (rest, si') \<Longrightarrow> length rest \<le> length cs"
  by (induction cs si rule: skipNewlines.induct) (auto split: if_splits)

lemma afterPadding_length:
  "afterPadding dbuf cs si = ((rest, si'), out, err) \<Longrightarrow> length rest \<le> length cs"
  by (auto simp: afterPadding_def split: prod.splits dest: skipNewlines_length)

lemma decodeQuantum_from_length:
  "decodeQuantum_from n dbuf cs si = ((rest, si'), out, err) \<Longrightarrow> length rest \<le> length cs"
proof (induction cs arbitrary: dbuf si)
  case Nil
  then show ?case by (auto split: if_splits)
next
  case (Cons c cs)
  show ?case
  proof (cases "decodeMap c \<noteq> 0xFF \<and> length dbuf \<noteq> 3 \<or> decodeMap c = 0xFF \<and> isNewline c")
    case True
    with Cons.prems have "\<exists>d. decodeQuantum_from n d cs (Suc si) = ((rest, si'), out, err)"
      by (auto split: if_splits)
    with Cons.IH show ?thesis by fastforce
  next
    case False
    with Cons.prems show ?thesis
      by (auto split: if_splits prod.splits list.splits
               dest!: skipNewlines_length afterPadding_length)
  qed
qed

lemma decodeQuantum_consumes:
  assumes "cs \<noteq> []" and "decodeQuantum n cs si = ((rest, si'), out, err)"
  shows "length rest < length cs"
proof -
  from assms(1) obtain c cs' where cs: "cs = c # cs'" by (cases cs) auto
  show ?thesis
  proof (cases "decodeMap c \<noteq> 0xFF \<or> isNewline c")
    case True
    with assms(2) cs have "\<exists>d. decodeQuantum_from n d cs' (Suc si) = ((rest, si'), out, err)"
      by (auto simp: decodeQuantum_def split: if_splits)
    then show ?thesis using cs by (auto dest: decodeQuantum_from_length)
  next
    case False
    with assms(2) cs show ?thesis
      by (auto simp: decodeQuantum_def split: if_splits)
  qed
qed

text \<open>
  \<^verbatim>\<open>Decode\<close>: quantum after quantum while \<^verbatim>\<open>si < len(src)\<close>, stopping at the first error.
  The library's faster paths for eight and four valid characters at once decode the same
  quanta. \<^verbatim>\<open>DecodeString\<close> returns the bytes written together with the error.
\<close>

function Decode_from :: "nat \<Rightarrow> string \<Rightarrow> nat \<Rightarrow> byte list \<times> error option" where
  "Decode_from n cs si =
     (if cs = [] then ([], None)
      else case decodeQuantum n cs si of
             ((rest, si'), out, Some e) \<Rightarrow> (out, Some e)
           | ((rest, si'), out, None) \<Rightarrow>
               (case Decode_from n rest si' of (out', err) \<Rightarrow> (out @ out', err)))"
  by pat_completeness auto
termination
  by (relation "measure (\<lambda>(n, cs, si). length cs)") (auto dest: decodeQuantum_consumes [OF _ sym])

declare Decode_from.simps [simp del]

definition DecodeString :: "string \<Rightarrow> byte list \<times> error option" where
  "DecodeString s = Decode_from (length s) s 0"

section \<open>\<^verbatim>\<open>crypto/sha256\<close> and \<^verbatim>\<open>crypto/hmac\<close>\<close>

text \<open>
  SHA-256 as the library computes it (FIPS 180-4): the message is padded to a multiple of
  64 bytes and each block is folded into the eight registers of the digest.
\<close>

definition rotr :: "nat \<Rightarrow> uint32 \<Rightarrow> uint32" where
  "rotr n x = drop_bit n x OR push_bit (32 - n) x"

definition K256 :: "uint32 list" where
  "K256 = [
    0x428A2F98, 0x71374491, 0xB5C0FBCF, 0xE9B5DBA5, 0x3956C25B, 0x59F111F1, 0x923F82A4, 0xAB1C5ED5,
    0xD807AA98, 0x12835B01, 0x243185BE, 0x550C7DC3, 0x72BE5D74, 0x80DEB1FE, 0x9BDC06A7, 0xC19BF174,
    0xE49B69C1, 0xEFBE4786, 0x0FC19DC6, 0x240CA1CC, 0x2DE92C6F, 0x4A7484AA, 0x5CB0A9DC, 0x76F988DA,
    0x983E5152, 0xA831C66D, 0xB00327C8, 0xBF597FC7, 0xC6E00BF3, 0xD5A79147, 0x06CA6351, 0x14292967,
    0x27B70A85, 0x2E1B2138, 0x4D2C6DFC, 0x53380D13, 0x650A7354, 0x766A0ABB, 0x81C2C92E, 0x92722C85,
    0xA2BFE8A1, 0xA81A664B, 0xC24B8B70, 0xC76C51A3, 0xD192E819, 0xD6990624, 0xF40E3585, 0x106AA070,
    0x19A4C116, 0x1E376C08, 0x2748774C, 0x34B0BCB5, 0x391C0CB3, 0x4ED8AA4A, 0x5B9CCA4F, 0x682E6FF3,
    0x748F82EE, 0x78A5636F, 0x84C87814, 0x8CC70208, 0x90BEFFFA, 0xA4506CEB, 0xBEF9A3F7, 0xC67178F2]"

type_synonym registers =
  "uint32 \<times> uint32 \<times> uint32 \<times> uint32 \<times> uint32 \<times> uint32 \<times> uint32 \<times> uint32"

definition init256 :: registers where
  "init256 = (0x6A09E667, 0xBB67AE85, 0x3C6EF372, 0xA54FF53A,
              0x510E527F, 0x9B05688C, 0x1F83D9AB, 0x5BE0CD19)"

text \<open>The sixteen big-endian words of a block, and the words the schedule adds to them.\<close>

fun bigEndianWords :: "byte list \<Rightarrow> uint32 list" where
  "bigEndianWords (a # b # c # d # p) =
     (push_bit 24 (ucast a) OR push_bit 16 (ucast b) OR push_bit 8 (ucast c) OR ucast d)
       # bigEndianWords p"
| "bigEndianWords _ = []"

fun schedule :: "nat \<Rightarrow> uint32 list \<Rightarrow> uint32 list" where
  "schedule 0 w = w"
| "schedule (Suc k) w =
     (let i = length w;
          v1 = w ! (i - 2);
          t1 = rotr 17 v1 XOR rotr 19 v1 XOR drop_bit 10 v1;
          v2 = w ! (i - 15);
          t2 = rotr 7 v2 XOR rotr 18 v2 XOR drop_bit 3 v2
      in schedule k (w @ [t1 + w ! (i - 7) + t2 + w ! (i - 16)]))"

fun round256 :: "registers \<Rightarrow> uint32 \<times> uint32 \<Rightarrow> registers" where
  "round256 (a, b, c, d, e, f, g, h) (k, w) =
     (let t1 = h + (rotr 6 e XOR rotr 11 e XOR rotr 25 e) + ((e AND f) XOR (NOT e AND g)) + k + w;
          t2 = (rotr 2 a XOR rotr 13 a XOR rotr 22 a) + ((a AND b) XOR (a AND c) XOR (b AND c))
      in (t1 + t2, a, b, c, d + t1, e, f, g))"

fun block :: "registers \<Rightarrow> byte list \<Rightarrow> registers" where
  "block (h0, h1, h2, h3, h4, h5, h6, h7) p =
     (case foldl round256 (h0, h1, h2, h3, h4, h5, h6, h7)
             (zip K256 (schedule 48 (bigEndianWords p))) of
        (a, b, c, d, e, f, g, h) \<Rightarrow>
          (h0 + a, h1 + b, h2 + c, h3 + d, h4 + e, h5 + f, h6 + g, h7 + h))"

fun blocks :: "nat \<Rightarrow> registers \<Rightarrow> byte list \<Rightarrow> registers" where
  "blocks 0 hs p = hs"
| "blocks (Suc k) hs p = blocks k (block hs (take 64 p)) (drop 64 p)"

definition putUint32 :: "uint32 \<Rightarrow> byte list" where
  "putUint32 x = [ucast (drop_bit 24 x), ucast (drop_bit 16 x), ucast (drop_bit 8 x), ucast x]"

definition putUint64 :: "uint64 \<Rightarrow> byte list" where
  "putUint64 x =
     [ucast (drop_bit 56 x), ucast (drop_bit 48 x), ucast (drop_bit 40 x), ucast (drop_bit 32 x),
      ucast (drop_bit 24 x), ucast (drop_bit 16 x), ucast (drop_bit 8 x), ucast x]"

text \<open>The padding of a message of \<^verbatim>\<open>len\<close> bytes: \<^verbatim>\<open>0x80\<close>, zeros, and the length in bits.\<close>

definition padding :: "nat \<Rightarrow> byte list" where
  "padding len =
     (let t = (if len mod 64 < 56 then 56 - len mod 64 else 64 + 56 - len mod 64)
      in 0x80 # replicate (t - 1) 0 @ putUint64 (push_bit 3 (of_nat len)))"

fun digestBytes :: "registers \<Rightarrow> byte list" where
  "digestBytes (h0, h1, h2, h3, h4, h5, h6, h7) =
     putUint32 h0 @ putUint32 h1 @ putUint32 h2 @ putUint32 h3 @
     putUint32 h4 @ putUint32 h5 @ putUint32 h6 @ putUint32 h7"

definition sha256_Sum :: "byte list \<Rightarrow> byte list" where
  "sha256_Sum msg =
     (let p = msg @ padding (length msg)
      in digestBytes (blocks (length p div 64) init256 p))"

text \<open>
  \<^verbatim>\<open>crypto/hmac\<close> (RFC 2104). \<^verbatim>\<open>hmac.New(sha256.New, key)\<close> prepares the two pads from the
  key (hashed first when it is longer than a block); \<^verbatim>\<open>Write\<close> feeds the inner hash;
  \<^verbatim>\<open>Sum(nil)\<close> hashes the outer pad followed by the inner digest. The record keeps the
  pads and the bytes written so far.
\<close>

record hmac =
  opad :: "byte list"
  ipad :: "byte list"
  written :: "byte list"

definition hmac_New :: "byte list \<Rightarrow> hmac" where
  "hmac_New key =
     (let key' = (if length key > 64 then sha256_Sum key else key);
          padded = key' @ replicate (64 - length key') 0
      in \<lparr>opad = map (\<lambda>b. b XOR 0x5c) padded,
          ipad = map (\<lambda>b. b XOR 0x36) padded,
          written = []\<rparr>)"

definition hmac_Write :: "hmac \<Rightarrow> byte list \<Rightarrow> hmac" where
  "hmac_Write h p = h\<lparr>written := written h @ p\<rparr>"

definition hmac_Sum :: "hmac \<Rightarrow> byte list \<Rightarrow> byte list" where
  "hmac_Sum h b = b @ sha256_Sum (opad h @ sha256_Sum (ipad h @ written h))"

text \<open>
  \<^verbatim>\<open>hmac.Equal\<close> is \<^verbatim>\<open>subtle.ConstantTimeCompare(mac1, mac2) == 1\<close>: slices of different
  lengths are unequal at once, otherwise the differences of all bytes are collected.
\<close>

definition ConstantTimeByteEq :: "byte \<Rightarrow> byte \<Rightarrow> int" where
  "ConstantTimeByteEq x y = uint (drop_bit 31 ((ucast (x XOR y) :: uint32) - 1))"

definition ConstantTimeCompare :: "byte list \<Rightarrow> byte list \<Rightarrow> int" where
  "ConstantTimeCompare x y =
     (if length x \<noteq> length y then 0
      else ConstantTimeByteEq (foldl (\<lambda>v (a, b). v OR (a XOR b)) 0 (zip x y)) 0)"

definition hmac_Equal :: "byte list \<Rightarrow> byte list \<Rightarrow> bool" where
  "hmac_Equal mac1 mac2 = (ConstantTimeCompare mac1 mac2 = 1)"

section \<open>Session identifiers\<close>

text \<open>
  The package's constants and its one package-level variable, \<^verbatim>\<open>generatedSID\<close>. The
  process state holds that variable and the system's random source: the bytes it will
  deliver next. \<^verbatim>\<open>rand.Read(b)\<close> fills \<^verbatim>\<open>b\<close> or fails, and it fails here when the source
  has fewer bytes left than asked for.
\<close>

type_synonym SID = string

definition InvalidSessionID :: SID where
  "InvalidSessionID = []"

definition idLength :: nat where
  "idLength = 32"

record process =
  generatedSID :: string
  randReader :: "byte list"

definition rand_Read :: "nat \<Rightarrow> process \<Rightarrow> (byte list \<times> error option) \<times> process" where
  "rand_Read n st =
     (if n \<le> length (randReader st)
      then ((take n (randReader st), None), st\<lparr>randReader := drop n (randReader st)\<rparr>)
      else ((replicate n 0, Some EntropyError), st))"

definition GenerateRandomBytes :: "nat \<Rightarrow> process \<Rightarrow> (byte list \<times> error option) \<times> process" where
  "GenerateRandomBytes n st =
     (case rand_Read n st of
        ((b, Some err), st') \<Rightarrow> (([], Some err), st')
      | ((b, None), st') \<Rightarrow> ((b, None), st'))"

definition GenerateRandomHMAC :: "string \<Rightarrow> byte list" where
  "GenerateRandomHMAC signingKey =
     (let b = [];
          h = hmac_New (bytes_of_string signingKey);
          h = hmac_Write h b
      in hmac_Sum h [])"

definition NewSessionID :: "string \<Rightarrow> process \<Rightarrow> (SID \<times> error option) \<times> process" where
  "NewSessionID signingKey st =
     (if length signingKey = 0 then
        ((InvalidSessionID, Some (ErrorString ''not signing key'')), st)
      else
        case GenerateRandomBytes idLength st of
          ((randByte, Some err), st') \<Rightarrow> ((InvalidSessionID, Some err), st')
        | ((randByte, None), st') \<Rightarrow>
            (let combined = randByte @ GenerateRandomHMAC signingKey;
                 sid = EncodeToString combined
             in ((sid, None), st'\<lparr>generatedSID := sid\<rparr>)))"

definition DecodeSessionID :: "string \<Rightarrow> byte list \<times> error option" where
  "DecodeSessionID sid =
     (case DecodeString sid of
        (d, Some err) \<Rightarrow> ([], Some err)
      | (d, None) \<Rightarrow> (d, None))"

definition IdHasMutated :: "string \<Rightarrow> process \<Rightarrow> bool" where
  "IdHasMutated id' st = (generatedSID st = id')"

text \<open>
  \<^verbatim>\<open>ValidateID\<close>. The slice expression \<^verbatim>\<open>decodedID[idLength:]\<close> panics when fewer than
  \<^verbatim>\<open>idLength\<close> bytes were decoded. The function reads no package-level variable (the call
  of \<^verbatim>\<open>IdHasMutated\<close> is commented out), so it takes and returns no process state.
\<close>

definition ValidateID :: "string \<Rightarrow> string \<Rightarrow> (SID \<times> error option) outcome" where
  "ValidateID id' signingKey =
     (case DecodeSessionID id' of
        (decodedID, Some err) \<Rightarrow> Returns (InvalidSessionID, Some err)
      | (decodedID, None) \<Rightarrow>
          if idLength > length decodedID
          then Panics (SliceBoundsOutOfRange idLength (length decodedID))
          else
            (let decodedID = drop idLength decodedID;
                 match = hmac_Equal decodedID (GenerateRandomHMAC signingKey)
             in if match then Returns (id', None)
                else Returns (InvalidSessionID, Some (ErrorString ''hmac not equal''))))"

text \<open>
  The keyed hash of a message under a key, \<^verbatim>\<open>HMAC-SHA256(key, msg)\<close>: what a fresh
  \<^verbatim>\<open>hmac.New\<close> returns from \<^verbatim>\<open>Sum(nil)\<close> once \<^verbatim>\<open>msg\<close> has been written to it.
\<close>

definition HMAC_SHA256 :: "byte list \<Rightarrow> byte list \<Rightarrow> byte list" where
  "HMAC_SHA256 key msg = hmac_Sum (hmac_Write (hmac_New key) msg) []"

text \<open>Flipping bit \<^verbatim>\<open>i\<close> of a byte sequence (bit \<^verbatim>\<open>i mod 8\<close> of byte \<^verbatim>\<open>i div 8\<close>).\<close>

definition flipBit :: "nat \<Rightarrow> byte list \<Rightarrow> byte list" where
  "flipBit i bs = bs[i div 8 := (bs ! (i div 8)) XOR push_bit (i mod 8) 1]"

section \<open>The session store on redis\<close>

text \<open>The package's error values (\<^verbatim>\<open>sessionError.go\<close>) and go-redis's \<^verbatim>\<open>redis.Nil\<close>.\<close>

definition ErrStateNotFound :: error where
  "ErrStateNotFound = ErrorString ''no session state was found in the session store''"

definition ErrInvalidScheme :: error where
  "ErrInvalidScheme = ErrorString ''authorization scheme not supported''"

definition ErrInvalidID :: error where
  "ErrInvalidID = ErrorString ''invalid Session ID''"

definition redis_Nil :: error where
  "redis_Nil = RedisError ''redis: nil''"

text \<open>
  The redis server as the client sees it: whether it can be reached, and its keys, each
  with a value and a time to live (a \<^verbatim>\<open>time.Duration\<close>). A key that was never set, was
  deleted or has expired is not in the map. Every command returns a command object that
  carries its value and its error; a command sent to a server that cannot be reached
  carries the connection's error and changes nothing.
\<close>

record redis_Client =
  reachable :: bool
  entries :: "string \<rightharpoonup> string \<times> int"

datatype 'a Cmd = Cmd (Val: 'a) (Err: "error option")

definition Client_Set ::
  "redis_Client \<Rightarrow> string \<Rightarrow> string \<Rightarrow> int \<Rightarrow> string Cmd \<times> redis_Client" where
  "Client_Set c key value expiration =
     (if reachable c
      then (Cmd ''OK'' None, c\<lparr>entries := (entries c)(key \<mapsto> (value, expiration))\<rparr>)
      else (Cmd [] (Some NetError), c))"

definition Client_Del :: "redis_Client \<Rightarrow> string \<Rightarrow> int Cmd \<times> redis_Client" where
  "Client_Del c key =
     (if reachable c
      then (Cmd (if entries c key = None then 0 else 1) None,
            c\<lparr>entries := (entries c)(key := None)\<rparr>)
      else (Cmd 0 (Some NetError), c))"

text \<open>
  A pipeline queues commands and \<^verbatim>\<open>Exec\<close> sends them together; it returns the error of
  the first command that failed. \<^verbatim>\<open>Get\<close> queues two commands, so the pipeline here has
  two. \<^verbatim>\<open>GET\<close> of a missing key fails with \<^verbatim>\<open>redis.Nil\<close>; \<^verbatim>\<open>EXPIRE\<close> sets the time to
  live of a key that exists.
\<close>

datatype command = GET string | EXPIRE string int

datatype reply = StringCmd "string Cmd" | BoolCmd "bool Cmd"

fun process_command :: "redis_Client \<Rightarrow> command \<Rightarrow> reply \<times> redis_Client" where
  "process_command c (GET key) =
     (case entries c key of
        None \<Rightarrow> (StringCmd (Cmd [] (Some redis_Nil)), c)
      | Some (v, ttl) \<Rightarrow> (StringCmd (Cmd v None), c))"
| "process_command c (EXPIRE key expiration) =
     (case entries c key of
        None \<Rightarrow> (BoolCmd (Cmd False None), c)
      | Some (v, ttl) \<Rightarrow>
          (BoolCmd (Cmd True None), c\<lparr>entries := (entries c)(key \<mapsto> (v, expiration))\<rparr>))"

fun unreachable_reply :: "command \<Rightarrow> reply" where
  "unreachable_reply (GET key) = StringCmd (Cmd [] (Some NetError))"
| "unreachable_reply (EXPIRE key expiration) = BoolCmd (Cmd False (Some NetError))"

fun reply_Err :: "reply \<Rightarrow> error option" where
  "reply_Err (StringCmd cmd) = Err cmd"
| "reply_Err (BoolCmd cmd) = Err cmd"

fun firstCmdsErr :: "reply list \<Rightarrow> error option" where
  "firstCmdsErr [] = None"
| "firstCmdsErr (r # rs) = (case reply_Err r of Some err \<Rightarrow> Some err | None \<Rightarrow> firstCmdsErr rs)"

definition Pipeline_Exec ::
  "redis_Client \<Rightarrow> command \<Rightarrow> command \<Rightarrow> ((reply \<times> reply) \<times> error option) \<times> redis_Client" where
  "Pipeline_Exec c cmd1 cmd2 =
     (if reachable c
      then (case process_command c cmd1 of
              (r1, c1) \<Rightarrow>
                (case process_command c1 cmd2 of
                   (r2, c2) \<Rightarrow> (((r1, r2), firstCmdsErr [r1, r2]), c2)))
      else (((unreachable_reply cmd1, unreachable_reply cmd2), Some NetError), c))"

fun Result :: "reply \<Rightarrow> string \<times> error option" where
  "Result (StringCmd cmd) = (Val cmd, Err cmd)"
| "Result (BoolCmd cmd) = ([], Err cmd)"

text \<open>
  \<^verbatim>\<open>RedisStore\<close>. The session state is an \<^verbatim>\<open>interface{}\<close> that only \<^verbatim>\<open>encoding/json\<close>
  looks into, so \<^verbatim>\<open>json.Marshal\<close> and \<^verbatim>\<open>json.Unmarshal\<close> are parameters of the
  operations. Every operation returns its error and the store, whose client stands for the
  server it talks to; \<^verbatim>\<open>Get\<close> also returns the state it has put into its second argument.
\<close>

record RedisStore =
  Client :: redis_Client
  SessionDuration :: int

definition NewRedisStore :: "redis_Client \<Rightarrow> int \<Rightarrow> RedisStore" where
  "NewRedisStore client sessionDuration =
     \<lparr>Client = client, SessionDuration = sessionDuration\<rparr>"

definition getRedisKey :: "SID \<Rightarrow> string" where
  "getRedisKey sid = sid"

definition Save ::
  "('a \<Rightarrow> error + string) \<Rightarrow> RedisStore \<Rightarrow> SID \<Rightarrow> 'a \<Rightarrow> error option \<times> RedisStore" where
  "Save json_Marshal rs sid sessionState =
     (case json_Marshal sessionState of
        Inl err \<Rightarrow> (Some err, rs)
      | Inr j \<Rightarrow>
          (case Client_Set (Client rs) (getRedisKey sid) j (SessionDuration rs) of
             (cmd, c) \<Rightarrow> (None, rs\<lparr>Client := c\<rparr>)))"

definition Delete :: "RedisStore \<Rightarrow> SID \<Rightarrow> error option \<times> RedisStore" where
  "Delete rs sid =
     (case Client_Del (Client rs) (getRedisKey sid) of
        (cmd, c) \<Rightarrow> (None, rs\<lparr>Client := c\<rparr>))"

definition Get ::
  "(string \<Rightarrow> error + 'a) \<Rightarrow> RedisStore \<Rightarrow> SID \<Rightarrow> (error option \<times> 'a option) \<times> RedisStore" where
  "Get json_Unmarshal rs sid =
     (case Pipeline_Exec (Client rs) (GET (getRedisKey sid))
             (EXPIRE (getRedisKey sid) (SessionDuration rs)) of
        (((pipe, expire), Some err), c) \<Rightarrow> ((Some err, None), rs\<lparr>Client := c\<rparr>)
      | (((pipe, expire), None), c) \<Rightarrow>
          (case Result pipe of
             (s, Some err) \<Rightarrow> ((Some err, None), rs\<lparr>Client := c\<rparr>)
           | (s, None) \<Rightarrow>
               (case json_Unmarshal s of
                  Inl err \<Rightarrow> ((Some err, None), rs\<lparr>Client := c\<rparr>)
                | Inr v \<Rightarrow> ((None, Some v), rs\<lparr>Client := c\<rparr>))))"

section \<open>Facts about the encoding\<close>

text \<open>Six-bit values stay below 64, and the table sends each character of the alphabet back.\<close>

lemma mask6: "(x :: uint) AND 0x3F = take_bit 6 x"
  using take_bit_eq_mask [of 6 x] by (simp add: mask_eq_exp_minus_1)

lemma sextet_lt: "unat ((x :: uint) AND 0x3F) < 64"
proof -
  have "x AND 0x3F \<le> 0x3F" by (rule word_and_le1)
  then show ?thesis by (simp add: word_le_nat_alt)
qed

lemma decodeMap_table:
  "list_all (\<lambda>i. decodeMap (encodeURL ! i) = of_nat i \<and> decodeMap (encodeURL ! i) \<noteq> 0xFF)
     [0..<64]"
  by code_simp

lemma decodeMap_encode: "decodeMap (encode (x AND 0x3F)) = ucast (x AND 0x3F)"
proof -
  have "unat (x AND 0x3F) \<in> set [0..<64]" using sextet_lt [of x] by simp
  with decodeMap_table show ?thesis
    unfolding list_all_iff encode_def by fastforce
qed

lemma sextet_ne_FF: "(ucast ((x :: uint) AND 0x3F) :: byte) \<noteq> 0xFF"
proof -
  have "unat (x AND 0x3F) \<in> set [0..<64]" using sextet_lt [of x] by simp
  with decodeMap_table have "decodeMap (encode (x AND 0x3F)) \<noteq> 0xFF"
    unfolding list_all_iff encode_def by fastforce
  then show ?thesis by (simp add: decodeMap_encode)
qed

lemma decodeMap_padChar: "decodeMap padChar = 0xFF"
  by code_simp

lemma padChar_not_newline: "\<not> isNewline padChar"
  by code_simp

text \<open>Two bytes are equal when their eight bits are.\<close>

lemma byte_eqI:
  fixes x y :: byte
  assumes "bit x 0 = bit y 0" "bit x 1 = bit y 1" "bit x 2 = bit y 2" "bit x 3 = bit y 3"
    "bit x 4 = bit y 4" "bit x 5 = bit y 5" "bit x 6 = bit y 6" "bit x 7 = bit y 7"
  shows "x = y"
proof (rule bit_word_eqI)
  fix n assume "n < LENGTH(8)"
  then have "n \<in> {0, 1, 2, 3, 4, 5, 6, 7}"
    by auto
  with assms show "bit x n = bit y n" by auto
qed

lemma byte_bit_ge: "8 \<le> n \<Longrightarrow> \<not> bit (b :: byte) n"
  by (auto dest: bit_imp_le_length)

text \<open>The four, three and two six-bit values of a group give its three, two and one bytes back.\<close>

lemma assemble_three:
  fixes a b c :: byte
  defines "val \<equiv> push_bit 16 (ucast a) OR push_bit 8 (ucast b) OR (ucast c :: uint)"
  shows "assemble 4 [ucast (drop_bit 18 val AND 0x3F), ucast (drop_bit 12 val AND 0x3F),
                     ucast (drop_bit 6 val AND 0x3F), ucast (val AND 0x3F)] = [a, b, c]"
  unfolding assemble_def val_def
  apply (simp add: Let_def mask6)
  apply (intro conjI byte_eqI)
  apply (simp_all add: bit_simps byte_bit_ge)
  done

lemma assemble_two:
  fixes a b :: byte
  defines "val \<equiv> push_bit 16 (ucast a) OR push_bit 8 (ucast b) :: uint"
  shows "assemble 3 [ucast (drop_bit 18 val AND 0x3F), ucast (drop_bit 12 val AND 0x3F),
                     ucast (drop_bit 6 val AND 0x3F)] = [a, b]"
  unfolding assemble_def val_def
  apply (simp add: Let_def mask6)
  apply (intro conjI byte_eqI)
  apply (simp_all add: bit_simps byte_bit_ge)
  done

lemma assemble_one:
  fixes a :: byte
  defines "val \<equiv> push_bit 16 (ucast a) :: uint"
  shows "assemble 2 [ucast (drop_bit 18 val AND 0x3F), ucast (drop_bit 12 val AND 0x3F)] = [a]"
  unfolding assemble_def val_def
  apply (simp add: Let_def mask6)
  apply (intro conjI byte_eqI)
  apply (simp_all add: bit_simps byte_bit_ge)
  done

text \<open>One quantum of encoded text: a full group, and the two padded ones.\<close>

lemma decodeQuantum_full:
  "decodeQuantum n (encode (w AND 0x3F) # encode (x AND 0x3F) # encode (y AND 0x3F) #
                    encode (z AND 0x3F) # rest) si =
     ((rest, Suc (Suc (Suc (Suc si)))),
      assemble 4 [ucast (w AND 0x3F), ucast (x AND 0x3F), ucast (y AND 0x3F), ucast (z AND 0x3F)],
      None)"
  by (simp add: decodeQuantum_def decodeMap_encode sextet_ne_FF)

lemma decodeQuantum_pad1:
  "decodeQuantum n [encode (w AND 0x3F), encode (x AND 0x3F), encode (y AND 0x3F), padChar] si =
     (([], Suc (Suc (Suc (Suc si)))),
      assemble 3 [ucast (w AND 0x3F), ucast (x AND 0x3F), ucast (y AND 0x3F)], None)"
  by (simp add: decodeQuantum_def decodeMap_encode sextet_ne_FF decodeMap_padChar
                padChar_not_newline afterPadding_def numeral_3_eq_3 numeral_2_eq_2)

lemma decodeQuantum_pad2:
  "decodeQuantum n [encode (w AND 0x3F), encode (x AND 0x3F), padChar, padChar] si =
     (([], Suc (Suc (Suc (Suc si)))),
      assemble 2 [ucast (w AND 0x3F), ucast (x AND 0x3F)], None)"
  by (simp add: decodeQuantum_def decodeMap_encode sextet_ne_FF decodeMap_padChar
                padChar_not_newline afterPadding_def numeral_3_eq_3 numeral_2_eq_2)

lemma Decode_from_Nil: "Decode_from n [] si = ([], None)"
  by (simp add: Decode_from.simps)

text \<open>Decoding undoes encoding, whatever the bytes.\<close>

lemma Decode_from_Encode: "Decode_from n (Encode src) si = (src, None)"
proof (induction src arbitrary: si rule: Encode.induct)
  case (1 a b c src)
  define val :: uint where "val = push_bit 16 (ucast a) OR push_bit 8 (ucast b) OR ucast c"
  have enc: "Encode (a # b # c # src) =
      encode (drop_bit 18 val AND 0x3F) # encode (drop_bit 12 val AND 0x3F) #
      encode (drop_bit 6 val AND 0x3F) # encode (val AND 0x3F) # Encode src"
    by (simp add: val_def Let_def)
  have bytes: "assemble 4 [ucast (drop_bit 18 val AND 0x3F), ucast (drop_bit 12 val AND 0x3F),
      ucast (drop_bit 6 val AND 0x3F), ucast (val AND 0x3F)] = [a, b, c]"
    unfolding val_def by (rule assemble_three)
  show ?case
    unfolding enc by (subst Decode_from.simps) (simp add: decodeQuantum_full bytes "1.IH")
next
  case (2 a b)
  define val :: uint where "val = push_bit 16 (ucast a) OR push_bit 8 (ucast b)"
  have enc: "Encode [a, b] =
      [encode (drop_bit 18 val AND 0x3F), encode (drop_bit 12 val AND 0x3F),
       encode (drop_bit 6 val AND 0x3F), padChar]"
    by (simp add: val_def Let_def)
  have bytes: "assemble 3 [ucast (drop_bit 18 val AND 0x3F), ucast (drop_bit 12 val AND 0x3F),
      ucast (drop_bit 6 val AND 0x3F)] = [a, b]"
    unfolding val_def by (rule assemble_two)
  show ?case
    unfolding enc
    by (subst Decode_from.simps) (simp add: decodeQuantum_pad1 bytes Decode_from_Nil)
next
  case (3 a)
  define val :: uint where "val = push_bit 16 (ucast a)"
  have enc: "Encode [a] =
      [encode (drop_bit 18 val AND 0x3F), encode (drop_bit 12 val AND 0x3F), padChar, padChar]"
    by (simp add: val_def Let_def)
  have bytes: "assemble 2 [ucast (drop_bit 18 val AND 0x3F), ucast (drop_bit 12 val AND 0x3F)]
      = [a]"
    unfolding val_def by (rule assemble_one)
  show ?case
    unfolding enc
    by (subst Decode_from.simps) (simp add: decodeQuantum_pad2 bytes Decode_from_Nil)
next
  case 4
  show ?case by (simp add: Decode_from_Nil)
qed

lemma DecodeString_EncodeToString: "DecodeString (EncodeToString src) = (src, None)"
  by (simp add: DecodeString_def EncodeToString_def Decode_from_Encode)

lemma EncodeToString_inject: "EncodeToString x = EncodeToString y \<Longrightarrow> x = y"
proof -
  assume "EncodeToString x = EncodeToString y"
  then have "DecodeString (EncodeToString x) = DecodeString (EncodeToString y)" by simp
  then show "x = y" by (simp add: DecodeString_EncodeToString)
qed

lemma DecodeSessionID_EncodeToString: "DecodeSessionID (EncodeToString src) = (src, None)"
  by (simp add: DecodeSessionID_def DecodeString_EncodeToString)

section \<open>Facts about the keyed hash\<close>

lemma length_putUint32: "length (putUint32 x) = 4"
  by (simp add: putUint32_def)

lemma length_digestBytes: "length (digestBytes hs) = 32"
  by (cases hs rule: digestBytes.cases) (simp add: length_putUint32)

lemma length_sha256_Sum: "length (sha256_Sum msg) = 32"
  by (simp add: sha256_Sum_def Let_def length_digestBytes)

text \<open>The digest of \<^verbatim>\<open>"abc"\<close>, the first known answer of FIPS 180-4 for SHA-256.\<close>

lemma sha256_Sum_abc:
  "sha256_Sum (bytes_of_string ''abc'') =
     [0xBA, 0x78, 0x16, 0xBF, 0x8F, 0x01, 0xCF, 0xEA, 0x41, 0x41, 0x40, 0xDE, 0x5D, 0xAE, 0x22, 0x23,
      0xB0, 0x03, 0x61, 0xA3, 0x96, 0x17, 0x7A, 0x9C, 0xB4, 0x10, 0xFF, 0x61, 0xF2, 0x00, 0x15, 0xAD]"
  by code_simp

lemma length_hmac_Sum: "length (hmac_Sum h []) = 32"
  by (simp add: hmac_Sum_def length_sha256_Sum)

lemma length_GenerateRandomHMAC: "length (GenerateRandomHMAC signingKey) = 32"
  by (simp add: GenerateRandomHMAC_def Let_def length_hmac_Sum)

text \<open>
  \<^verbatim>\<open>GenerateRandomHMAC\<close> writes the bytes of a new, empty buffer: its result is the keyed
  hash of the empty message.
\<close>

lemma GenerateRandomHMAC_empty_message:
  "GenerateRandomHMAC signingKey = HMAC_SHA256 (bytes_of_string signingKey) []"
  by (simp add: GenerateRandomHMAC_def HMAC_SHA256_def Let_def)

text \<open>The comparison in constant time is equality of the two slices.\<close>

lemma ConstantTimeByteEq_zero: "ConstantTimeByteEq v 0 = (if v = 0 then 1 else 0)"
proof (cases "v = 0")
  case True
  then show ?thesis by (simp add: ConstantTimeByteEq_def)
next
  case False
  define w :: uint32 where "w = ucast v"
  have bound: "unat v < 256" using unsigned_less [of v, where ?'a = nat] by simp
  then have w: "unat w = unat v"
    by (simp add: w_def unsigned_ucast_eq take_bit_nat_eq_self)
  from False have "unat v \<noteq> 0" by (simp add: unat_eq_0)
  with w have "w \<noteq> 0" by (auto simp: unat_eq_0)
  then have "unat (w - 1) = unat w - 1" by (rule unat_minus_one)
  with bound w have "unat (w - 1) < 2 ^ 31" by simp
  then have "unat (drop_bit 31 (w - 1)) = 0"
    by (subst unat_drop_bit_eq) (simp add: drop_bit_eq_div)
  then have "drop_bit 31 (w - 1) = 0" by (simp add: unat_eq_0)
  with False show ?thesis by (simp add: ConstantTimeByteEq_def w_def)
qed

lemma xor_eq_zero_iff: "(a XOR b = 0) = (a = b)" for a b :: byte
proof
  assume "a XOR b = 0"
  then have "(a XOR b) XOR b = b" by simp
  then show "a = b" by (simp add: xor.assoc)
qed simp

lemma foldl_or_xor_zero:
  "(foldl (\<lambda>v (a, b). v OR (a XOR b)) v0 zs = (0 :: byte)) =
     (v0 = 0 \<and> list_all (\<lambda>(a, b). a = b) zs)"
proof (induction zs arbitrary: v0)
  case Nil
  then show ?case by simp
next
  case (Cons z zs)
  obtain a b where z: "z = (a, b)" by (cases z)
  show ?case by (auto simp: Cons.IH z or_eq_0_iff xor_eq_zero_iff)
qed

lemma zip_all_eq:
  "length xs = length ys \<Longrightarrow> list_all (\<lambda>(a, b). a = b) (zip xs ys) = (xs = ys)"
  by (induction xs ys rule: list_induct2) auto

lemma hmac_Equal_iff: "hmac_Equal mac1 mac2 = (mac1 = mac2)"
  by (auto simp: hmac_Equal_def ConstantTimeCompare_def ConstantTimeByteEq_zero
                 foldl_or_xor_zero zip_all_eq)

section \<open>Validation of short tokens\<close>

lemma DecodeString_AA: "DecodeString ''AA=='' = ([0], None)"
  by code_simp

lemma ValidateID_short:
  "DecodeString t = (d, None) \<Longrightarrow> length d < idLength \<Longrightarrow>
   ValidateID t signingKey = Panics (SliceBoundsOutOfRange idLength (length d))"
  by (simp add: ValidateID_def DecodeSessionID_def)

text \<open>
  Claim C4 says that no operation panics, and that \<^verbatim>\<open>ValidateID\<close> returns a pair for every
  token, the token \<^verbatim>\<open>"AA=="\<close> among them. That token decodes to the single byte \<^verbatim>\<open>0\<close>, and
  \<^verbatim>\<open>decodedID[idLength:]\<close> then panics with slice bounds out of range \<^verbatim>\<open>[32:1]\<close>, whatever
  the signing key: the function's own comment promises an error for an invalid token.
\<close>

theorem ValidateID_panics_on_short_token:
  "ValidateID ''AA=='' signingKey = Panics (SliceBoundsOutOfRange 32 1)"
  using ValidateID_short [OF DecodeString_AA, of signingKey] by (simp add: idLength_def)

section \<open>The store\<close>

lemma Get_missing:
  "reachable (Client rs) \<Longrightarrow> entries (Client rs) (getRedisKey sid) = None \<Longrightarrow>
   Get json_Unmarshal rs sid = ((Some redis_Nil, None), rs)"
  by (simp add: Get_def Pipeline_Exec_def)

text \<open>
  Claim C8 says that \<^verbatim>\<open>Get\<close> of a session with no entry fails with \<^verbatim>\<open>ErrStateNotFound\<close>.
  On a reachable server with no entries at all, \<^verbatim>\<open>Get\<close> of the session \<^verbatim>\<open>"abc"\<close> returns
  go-redis's \<^verbatim>\<open>redis.Nil\<close>, which is another error value; \<^verbatim>\<open>ErrStateNotFound\<close> is declared
  for this case and never returned.
\<close>

theorem Get_missing_returns_redis_Nil:
  "Get (Inr :: string \<Rightarrow> error + string)
       \<lparr>Client = \<lparr>reachable = True, entries = Map.empty\<rparr>, SessionDuration = 3600\<rparr> ''abc''
     = ((Some redis_Nil, None),
        \<lparr>Client = \<lparr>reachable = True, entries = Map.empty\<rparr>, SessionDuration = 3600\<rparr>)
   \<and> redis_Nil \<noteq> ErrStateNotFound"
  by (simp add: Get_missing redis_Nil_def ErrStateNotFound_def)

lemma Save_unreachable:
  "\<not> reachable (Client rs) \<Longrightarrow> json_Marshal sessionState = Inr j \<Longrightarrow>
   Save json_Marshal rs sid sessionState = (None, rs)"
  by (simp add: Save_def Client_Set_def)

text \<open>
  Claim C9 says that \<^verbatim>\<open>Save\<close> returns an error when the write fails. With a server that
  cannot be reached, \<^verbatim>\<open>Save\<close> of the state \<^verbatim>\<open>{}\<close> for the session \<^verbatim>\<open>"abc"\<close> returns \<^verbatim>\<open>nil\<close>
  and nothing is stored: the result of \<^verbatim>\<open>Client.Set\<close> is never looked at.
\<close>

theorem Save_drops_failed_write:
  "Save (Inr :: string \<Rightarrow> error + string)
        \<lparr>Client = \<lparr>reachable = False, entries = Map.empty\<rparr>, SessionDuration = 3600\<rparr>
        ''abc'' ''{}''
     = (None, \<lparr>Client = \<lparr>reachable = False, entries = Map.empty\<rparr>, SessionDuration = 3600\<rparr>)"
  by (simp add: Save_unreachable)

text \<open>
  Claim C10 says that the key in the backing store is the session identifier behind a fixed
  prefix. \<^verbatim>\<open>getRedisKey\<close> returns the identifier as it is, and so without the prefix
  \<^verbatim>\<open>"sid:"\<close> that its comment announces.
\<close>

theorem getRedisKey_adds_no_prefix:
  "getRedisKey sid = sid \<and> getRedisKey sid \<noteq> ''sid:'' @ sid"
  by (simp add: getRedisKey_def)

section \<open>Minting and validating\<close>

text \<open>The three ways \<^verbatim>\<open>NewSessionID\<close> can end.\<close>

lemma GenerateRandomBytes_ok:
  "n \<le> length (randReader st) \<Longrightarrow>
   GenerateRandomBytes n st =
     ((take n (randReader st), None), st\<lparr>randReader := drop n (randReader st)\<rparr>)"
  by (simp add: GenerateRandomBytes_def rand_Read_def)

lemma GenerateRandomBytes_fail:
  "\<not> n \<le> length (randReader st) \<Longrightarrow>
   GenerateRandomBytes n st = (([], Some EntropyError), st)"
  by (simp add: GenerateRandomBytes_def rand_Read_def)

lemma NewSessionID_cases:
  "NewSessionID signingKey st =
     (if signingKey = [] then ((InvalidSessionID, Some (ErrorString ''not signing key'')), st)
      else if idLength \<le> length (randReader st) then
        ((EncodeToString (take idLength (randReader st) @ GenerateRandomHMAC signingKey), None),
         st\<lparr>randReader := drop idLength (randReader st),
            generatedSID :=
              EncodeToString (take idLength (randReader st) @ GenerateRandomHMAC signingKey)\<rparr>)
      else ((InvalidSessionID, Some EntropyError), st))"
  by (simp add: NewSessionID_def GenerateRandomBytes_ok GenerateRandomBytes_fail Let_def)

text \<open>The branches of \<^verbatim>\<open>ValidateID\<close> that return.\<close>

lemma ValidateID_accepts:
  assumes "length r = idLength"
  shows "ValidateID (EncodeToString (r @ GenerateRandomHMAC signingKey)) signingKey =
           Returns (EncodeToString (r @ GenerateRandomHMAC signingKey), None)"
  using assms
  by (simp add: ValidateID_def DecodeSessionID_EncodeToString hmac_Equal_iff Let_def)

lemma ValidateID_decode_error:
  "DecodeString t = (d, Some e) \<Longrightarrow>
   ValidateID t signingKey = Returns (InvalidSessionID, Some e)"
  by (simp add: ValidateID_def DecodeSessionID_def)

lemma ValidateID_wrong_length:
  assumes "DecodeString t = (d, None)" and "idLength \<le> length d"
    and "length d \<noteq> idLength + 32"
  shows "ValidateID t signingKey =
           Returns (InvalidSessionID, Some (ErrorString ''hmac not equal''))"
proof -
  from assms(2,3) have "length (drop idLength d) \<noteq> length (GenerateRandomHMAC signingKey)"
    by (simp add: length_GenerateRandomHMAC)
  then have "drop idLength d \<noteq> GenerateRandomHMAC signingKey" by metis
  with assms(1,2) show ?thesis
    by (simp add: ValidateID_def DecodeSessionID_def hmac_Equal_iff Let_def)
qed

text \<open>Every error of the decoder is a \<^verbatim>\<open>CorruptInputError\<close>.\<close>

lemma decodeQuantum_from_error:
  "decodeQuantum_from n dbuf cs si = (pos, out, Some e) \<Longrightarrow> \<exists>k. e = CorruptInputError k"
proof (induction cs arbitrary: dbuf si)
  case Nil
  then show ?case by (auto split: if_splits)
next
  case (Cons c cs)
  show ?case
  proof (cases "decodeMap c \<noteq> 0xFF \<and> length dbuf \<noteq> 3 \<or> decodeMap c = 0xFF \<and> isNewline c")
    case True
    with Cons.prems have "\<exists>d. decodeQuantum_from n d cs (Suc si) = (pos, out, Some e)"
      by (auto split: if_splits)
    with Cons.IH show ?thesis by blast
  next
    case False
    with Cons.prems show ?thesis
      by (auto simp: afterPadding_def split: if_splits prod.splits list.splits)
  qed
qed

lemma Decode_from_error:
  "Decode_from n cs si = (out, Some e) \<Longrightarrow> \<exists>k. e = CorruptInputError k"
proof (induction n cs si arbitrary: out rule: Decode_from.induct)
  case (1 n cs si)
  show ?case
  proof (cases "cs = []")
    case True
    with "1.prems" show ?thesis by (simp add: Decode_from.simps)
  next
    case False
    obtain rest si' out1 err1 where q: "decodeQuantum n cs si = ((rest, si'), out1, err1)"
      by (metis prod.exhaust)
    show ?thesis
    proof (cases err1)
      case None
      obtain out2 err2 where r: "Decode_from n rest si' = (out2, err2)" by (metis prod.exhaust)
      with "1.prems" False q None have "err2 = Some e"
        by (subst (asm) Decode_from.simps) simp
      with "1.IH" [OF False q [symmetric] refl refl None] r show ?thesis by simp
    next
      case (Some e1)
      with "1.prems" False q have "e1 = e" by (subst (asm) Decode_from.simps) simp
      with q Some show ?thesis
        by (auto simp: decodeQuantum_def dest: decodeQuantum_from_error)
    qed
  qed
qed

lemma DecodeString_error:
  "DecodeString t = (d, Some e) \<Longrightarrow> \<exists>k. e = CorruptInputError k"
  by (auto simp: DecodeString_def dest: Decode_from_error)

subsection \<open>The keyed hash under the key \<^verbatim>\<open>"k"\<close>\<close>

text \<open>
  The two pads of the key \<^verbatim>\<open>"k"\<close>, and the inner and outer hashes of the empty message and
  of 32 zero bytes, computed block by block.
\<close>

lemma pads_k:
  "hmac_New (bytes_of_string ''k'') =
     \<lparr>opad = 55 # replicate 63 92, ipad = 93 # replicate 63 54, written = []\<rparr>"
  by code_simp

lemma inner_empty:
  "sha256_Sum (93 # replicate 63 54) =
     [236, 78, 206, 39, 145, 42, 253, 78, 110, 25, 145, 199, 178, 116, 180, 114,
      8, 245, 155, 232, 51, 209, 134, 85, 149, 249, 194, 118, 252, 237, 211, 254]"
  by code_simp

lemma inner_zeros:
  "sha256_Sum ((93 # replicate 63 54) @ replicate 32 0) =
     [184, 135, 71, 47, 58, 143, 229, 190, 211, 229, 113, 128, 176, 85, 202, 193,
      212, 203, 243, 135, 184, 29, 188, 21, 99, 175, 51, 85, 231, 128, 198, 239]"
  by code_simp

lemma outer_empty:
  "sha256_Sum ((55 # replicate 63 92) @
     [236, 78, 206, 39, 145, 42, 253, 78, 110, 25, 145, 199, 178, 116, 180, 114,
      8, 245, 155, 232, 51, 209, 134, 85, 149, 249, 194, 118, 252, 237, 211, 254]) =
     [139, 185, 144, 196, 10, 125, 97, 203, 151, 89, 122, 148, 33, 37, 2, 91,
      229, 10, 200, 190, 183, 68, 54, 227, 115, 91, 152, 137, 58, 127, 102, 32]"
  by code_simp

lemma outer_zeros:
  "sha256_Sum ((55 # replicate 63 92) @
     [184, 135, 71, 47, 58, 143, 229, 190, 211, 229, 113, 128, 176, 85, 202, 193,
      212, 203, 243, 135, 184, 29, 188, 21, 99, 175, 51, 85, 231, 128, 198, 239]) =
     [198, 157, 252, 84, 75, 93, 119, 130, 27, 216, 11, 53, 14, 230, 156, 168,
      0, 148, 80, 218, 82, 254, 209, 20, 0, 247, 19, 132, 180, 190, 130, 51]"
  by code_simp

lemma HMAC_k_empty:
  "HMAC_SHA256 (bytes_of_string ''k'') [] =
     [139, 185, 144, 196, 10, 125, 97, 203, 151, 89, 122, 148, 33, 37, 2, 91,
      229, 10, 200, 190, 183, 68, 54, 227, 115, 91, 152, 137, 58, 127, 102, 32]"
  using inner_empty outer_empty
  by (simp add: HMAC_SHA256_def hmac_Sum_def hmac_Write_def pads_k)

lemma HMAC_k_zeros:
  "HMAC_SHA256 (bytes_of_string ''k'') (replicate 32 0) =
     [198, 157, 252, 84, 75, 93, 119, 130, 27, 216, 11, 53, 14, 230, 156, 168,
      0, 148, 80, 218, 82, 254, 209, 20, 0, 247, 19, 132, 180, 190, 130, 51]"
  using inner_zeros outer_zeros
  by (simp add: HMAC_SHA256_def hmac_Sum_def hmac_Write_def pads_k)

lemma GenerateRandomHMAC_k:
  "GenerateRandomHMAC ''k'' =
     [139, 185, 144, 196, 10, 125, 97, 203, 151, 89, 122, 148, 33, 37, 2, 91,
      229, 10, 200, 190, 183, 68, 54, 227, 115, 91, 152, 137, 58, 127, 102, 32]"
  by (simp only: GenerateRandomHMAC_empty_message HMAC_k_empty)

text \<open>
  The token that the key \<^verbatim>\<open>"k"\<close> and 32 zero bytes from the random source give, the token
  with the keyed hash of those 32 bytes in its place, and the first token with the lowest
  bit of its first byte flipped.
\<close>

lemma token_of_code:
  "EncodeToString (replicate 32 0 @
     [139, 185, 144, 196, 10, 125, 97, 203, 151, 89, 122, 148, 33, 37, 2, 91,
      229, 10, 200, 190, 183, 68, 54, 227, 115, 91, 152, 137, 58, 127, 102, 32]) =
   ''AAAAAAAAAAAAAAAAAAAAAAAAAAAAAAAAAAAAAAAAAACLuZDECn1hy5dZepQhJQJb5QrIvrdENuNzW5iJOn9mIA==''"
  by code_simp

lemma token_of_claim:
  "EncodeToString (replicate 32 0 @
     [198, 157, 252, 84, 75, 93, 119, 130, 27, 216, 11, 53, 14, 230, 156, 168,
      0, 148, 80, 218, 82, 254, 209, 20, 0, 247, 19, 132, 180, 190, 130, 51]) =
   ''AAAAAAAAAAAAAAAAAAAAAAAAAAAAAAAAAAAAAAAAAADGnfxUS113ghvYCzUO5pyoAJRQ2lL-0RQA9xOEtL6CMw==''"
  by code_simp

lemma token_tampered:
  "EncodeToString ((1 # replicate 31 0) @
     [139, 185, 144, 196, 10, 125, 97, 203, 151, 89, 122, 148, 33, 37, 2, 91,
      229, 10, 200, 190, 183, 68, 54, 227, 115, 91, 152, 137, 58, 127, 102, 32]) =
   ''AQAAAAAAAAAAAAAAAAAAAAAAAAAAAAAAAAAAAAAAAACLuZDECn1hy5dZepQhJQJb5QrIvrdENuNzW5iJOn9mIA==''"
  by code_simp

lemma flip_first_bit:
  "EncodeToString (flipBit 0 (fst (DecodeString
     ''AAAAAAAAAAAAAAAAAAAAAAAAAAAAAAAAAAAAAAAAAACLuZDECn1hy5dZepQhJQJb5QrIvrdENuNzW5iJOn9mIA==''))) =
   ''AQAAAAAAAAAAAAAAAAAAAAAAAAAAAAAAAAAAAAAAAACLuZDECn1hy5dZepQhJQJb5QrIvrdENuNzW5iJOn9mIA==''"
  by code_simp

lemma mint_k:
  "NewSessionID ''k'' \<lparr>generatedSID = [], randReader = replicate 32 0\<rparr> =
     ((''AAAAAAAAAAAAAAAAAAAAAAAAAAAAAAAAAAAAAAAAAACLuZDECn1hy5dZepQhJQJb5QrIvrdENuNzW5iJOn9mIA=='',
       None),
      \<lparr>generatedSID =
         ''AAAAAAAAAAAAAAAAAAAAAAAAAAAAAAAAAAAAAAAAAACLuZDECn1hy5dZepQhJQJb5QrIvrdENuNzW5iJOn9mIA=='',
       randReader = []\<rparr>)"
  by (simp add: NewSessionID_cases idLength_def GenerateRandomHMAC_k token_of_code)

subsection \<open>What the signature covers\<close>

text \<open>
  Claim C1 says that the signature half of a minted token is the keyed hash of the 32
  random bytes before it. With the key \<^verbatim>\<open>"k"\<close> and a random source that delivers 32 zero
  bytes, \<^verbatim>\<open>NewSessionID\<close> returns the first token below, whose signature is the keyed hash of
  the empty message; the token the claim describes is the second one. The comments of the
  package describe the second one too.
\<close>

theorem NewSessionID_signs_empty_message:
  "fst (NewSessionID ''k'' \<lparr>generatedSID = [], randReader = replicate 32 0\<rparr>) =
     (''AAAAAAAAAAAAAAAAAAAAAAAAAAAAAAAAAAAAAAAAAACLuZDECn1hy5dZepQhJQJb5QrIvrdENuNzW5iJOn9mIA=='',
      None) \<and>
   EncodeToString (replicate 32 0 @ HMAC_SHA256 (bytes_of_string ''k'') []) =
     ''AAAAAAAAAAAAAAAAAAAAAAAAAAAAAAAAAAAAAAAAAACLuZDECn1hy5dZepQhJQJb5QrIvrdENuNzW5iJOn9mIA=='' \<and>
   EncodeToString (replicate 32 0 @ HMAC_SHA256 (bytes_of_string ''k'') (replicate 32 0)) =
     ''AAAAAAAAAAAAAAAAAAAAAAAAAAAAAAAAAAAAAAAAAADGnfxUS113ghvYCzUO5pyoAJRQ2lL-0RQA9xOEtL6CMw==''"
  by (simp only: mint_k HMAC_k_empty HMAC_k_zeros token_of_code token_of_claim fst_conv simp_thms)

text \<open>Flipping a bit of the random component leaves the signature where it is.\<close>

lemma length_flipBit: "length (flipBit i bs) = length bs"
  by (simp add: flipBit_def)

lemma flipBit_append: "i div 8 < length r \<Longrightarrow> flipBit i (r @ m) = flipBit i r @ m"
  by (simp add: flipBit_def list_update_append nth_append)

lemma tampered_random_component:
  assumes "length r = idLength" and "i < 8 * idLength"
  shows "ValidateID (EncodeToString (flipBit i (r @ GenerateRandomHMAC signingKey))) signingKey =
           Returns (EncodeToString (flipBit i (r @ GenerateRandomHMAC signingKey)), None)"
proof -
  from assms have "i div 8 < length r" by simp
  then have "flipBit i (r @ GenerateRandomHMAC signingKey) =
      flipBit i r @ GenerateRandomHMAC signingKey"
    by (rule flipBit_append)
  moreover from assms(1) have "length (flipBit i r) = idLength" by (simp add: length_flipBit)
  ultimately show ?thesis by (simp add: ValidateID_accepts)
qed

text \<open>Flipping a bit of the signature is noticed.\<close>

lemma bit_mask_nonzero: "(push_bit (i mod 8) 1 :: byte) \<noteq> 0"
proof
  assume "(push_bit (i mod 8) 1 :: byte) = 0"
  then have "bit (push_bit (i mod 8) 1 :: byte) (i mod 8) = bit (0 :: byte) (i mod 8)" by simp
  then show False by (simp add: bit_simps)
qed

lemma xor_mask_changes: "(b :: byte) XOR push_bit (i mod 8) 1 \<noteq> b"
proof
  assume "b XOR push_bit (i mod 8) 1 = b"
  then have "b XOR (b XOR push_bit (i mod 8) 1) = b XOR b" by (rule arg_cong)
  moreover have "b XOR (b XOR push_bit (i mod 8) 1) = (b XOR b) XOR push_bit (i mod 8) 1"
    by (simp only: xor.assoc)
  ultimately have "(push_bit (i mod 8) 1 :: byte) = 0" by simp
  then show False by (simp add: bit_mask_nonzero)
qed

lemma flipBit_changes: "i div 8 < length bs \<Longrightarrow> flipBit i bs \<noteq> bs"
proof
  assume a: "i div 8 < length bs" and "flipBit i bs = bs"
  then have "flipBit i bs ! (i div 8) = bs ! (i div 8)" by simp
  with a show False
    using xor_mask_changes [of "bs ! (i div 8)" i] by (simp add: flipBit_def)
qed

lemma shift_div_mod:
  assumes "8 * (n :: nat) \<le> i"
  shows "(i - 8 * n) div 8 = i div 8 - n" and "(i - 8 * n) mod 8 = i mod 8"
proof -
  from assms obtain k where i: "i = 8 * n + k" by (auto simp: le_iff_add)
  show "(i - 8 * n) div 8 = i div 8 - n" by (simp add: i)
  show "(i - 8 * n) mod 8 = i mod 8" by (simp add: i)
qed

lemma flipBit_append2:
  assumes "length r \<le> i div 8"
  shows "flipBit i (r @ m) = r @ flipBit (i - 8 * length r) m"
proof -
  from assms have le: "8 * length r \<le> i" by simp
  have nth: "(r @ m) ! (i div 8) = m ! (i div 8 - length r)"
    using assms by (simp add: nth_append)
  have upd: "(r @ m)[i div 8 := x] = r @ m[i div 8 - length r := x]" for x
    using assms by (simp add: list_update_append)
  show ?thesis
    unfolding flipBit_def shift_div_mod [OF le] nth upd ..
qed

lemma tampered_signature:
  assumes "length r = idLength" and "8 * idLength \<le> i" and "i < 8 * (idLength + 32)"
  shows "ValidateID (EncodeToString (flipBit i (r @ GenerateRandomHMAC signingKey))) signingKey =
           Returns (InvalidSessionID, Some (ErrorString ''hmac not equal''))"
proof -
  define j where "j = i - 8 * length r"
  from assms have "length r \<le> i div 8" by simp
  then have split: "flipBit i (r @ GenerateRandomHMAC signingKey) =
      r @ flipBit j (GenerateRandomHMAC signingKey)"
    unfolding j_def by (rule flipBit_append2)
  from assms have "j div 8 < length (GenerateRandomHMAC signingKey)"
    by (simp add: j_def length_GenerateRandomHMAC)
  then have "flipBit j (GenerateRandomHMAC signingKey) \<noteq> GenerateRandomHMAC signingKey"
    by (rule flipBit_changes)
  with assms(1) show ?thesis
    by (simp add: split ValidateID_def DecodeSessionID_EncodeToString hmac_Equal_iff Let_def)
qed

text \<open>
  Claim C2 says that a minted token with any one bit flipped, in the random component or
  in the signature, fails validation with the signature mismatch. The token minted above
  with the key \<^verbatim>\<open>"k"\<close>, decoded, with the lowest bit of its first byte flipped and encoded
  again, is validated with success under the same key: the recomputed hash never reads
  the random component. (A flipped bit of the signature is rejected, as
  \<open>tampered_signature\<close> shows.)
\<close>

theorem tampered_random_bit_still_validates:
  "fst (NewSessionID ''k'' \<lparr>generatedSID = [], randReader = replicate 32 0\<rparr>) =
     (''AAAAAAAAAAAAAAAAAAAAAAAAAAAAAAAAAAAAAAAAAACLuZDECn1hy5dZepQhJQJb5QrIvrdENuNzW5iJOn9mIA=='',
      None) \<and>
   EncodeToString (flipBit 0 (fst (DecodeString
     ''AAAAAAAAAAAAAAAAAAAAAAAAAAAAAAAAAAAAAAAAAACLuZDECn1hy5dZepQhJQJb5QrIvrdENuNzW5iJOn9mIA==''))) =
     ''AQAAAAAAAAAAAAAAAAAAAAAAAAAAAAAAAAAAAAAAAACLuZDECn1hy5dZepQhJQJb5QrIvrdENuNzW5iJOn9mIA=='' \<and>
   ValidateID
     ''AQAAAAAAAAAAAAAAAAAAAAAAAAAAAAAAAAAAAAAAAACLuZDECn1hy5dZepQhJQJb5QrIvrdENuNzW5iJOn9mIA==''
     ''k'' =
     Returns
      (''AQAAAAAAAAAAAAAAAAAAAAAAAAAAAAAAAAAAAAAAAACLuZDECn1hy5dZepQhJQJb5QrIvrdENuNzW5iJOn9mIA=='',
       None)"
proof -
  have "length (1 # replicate 31 (0 :: byte)) = idLength" by (simp add: idLength_def)
  from ValidateID_accepts [OF this, of "''k''"]
  have "ValidateID
     ''AQAAAAAAAAAAAAAAAAAAAAAAAAAAAAAAAAAAAAAAAACLuZDECn1hy5dZepQhJQJb5QrIvrdENuNzW5iJOn9mIA==''
     ''k'' =
     Returns
      (''AQAAAAAAAAAAAAAAAAAAAAAAAAAAAAAAAAAAAAAAAACLuZDECn1hy5dZepQhJQJb5QrIvrdENuNzW5iJOn9mIA=='',
       None)"
    by (simp only: GenerateRandomHMAC_k token_tampered)
  then show ?thesis by (simp only: mint_k flip_first_bit fst_conv simp_thms)
qed

text \<open>
  Claim C3: for every non-empty signing key and every sequence \<open>r\<close> of 32 bytes, minted
  or not, \<^verbatim>\<open>ValidateID\<close> accepts the encoding of \<open>r\<close> followed by the keyed hash of the empty
  message under the key.
\<close>

theorem forged_token_validates:
  assumes "signingKey \<noteq> []" and "length r = 32"
  shows "ValidateID (EncodeToString (r @ HMAC_SHA256 (bytes_of_string signingKey) []))
           signingKey =
         Returns (EncodeToString (r @ HMAC_SHA256 (bytes_of_string signingKey) []), None)"
  using assms(2) ValidateID_accepts [of r signingKey]
  by (simp add: GenerateRandomHMAC_empty_message idLength_def)

theorem forged_token_validates_witness:
  "''k'' \<noteq> [] \<and> length (replicate 32 (7 :: byte)) = 32 \<and>
   ValidateID (EncodeToString (replicate 32 7 @ HMAC_SHA256 (bytes_of_string ''k'') [])) ''k'' =
     Returns (EncodeToString (replicate 32 7 @ HMAC_SHA256 (bytes_of_string ''k'') []), None)"
  using forged_token_validates [of "''k''" "replicate 32 7"] by simp

subsection \<open>Tokens that are not well formed\<close>

lemma DecodeString_not_base64:
  "DecodeString ''not-base64!!'' = ([158, 139, 126, 109, 171, 30], Some (CorruptInputError 10))"
  by code_simp

lemma DecodeString_32_zero_bytes:
  "DecodeString ''AAAAAAAAAAAAAAAAAAAAAAAAAAAAAAAAAAAAAAAAAAA='' = (replicate 32 0, None)"
  by code_simp

lemma DecodeString_33_zero_bytes:
  "DecodeString ''AAAAAAAAAAAAAAAAAAAAAAAAAAAAAAAAAAAAAAAAAAAA'' = (replicate 33 0, None)"
  by code_simp

text \<open>
  Claim C5 says that a token whose decoded length is not 64 bytes fails with the error
  kind of a malformed token. The token below decodes, without error, to 32 zero bytes, and
  \<^verbatim>\<open>ValidateID\<close> rejects it with the error of a signature that does not match.
\<close>

theorem wrong_length_is_hmac_mismatch:
  "DecodeString ''AAAAAAAAAAAAAAAAAAAAAAAAAAAAAAAAAAAAAAAAAAA='' = (replicate 32 0, None) \<and>
   length (replicate 32 (0 :: byte)) \<noteq> 32 + 32 \<and>
   ValidateID ''AAAAAAAAAAAAAAAAAAAAAAAAAAAAAAAAAAAAAAAAAAA='' ''k'' =
     Returns (InvalidSessionID, Some (ErrorString ''hmac not equal''))"
  using ValidateID_wrong_length [OF DecodeString_32_zero_bytes, of "''k''"]
  by (simp add: DecodeString_32_zero_bytes idLength_def)

text \<open>
  Claim C5 as amended: for every signing key, a token that is not valid base64-URL text
  is rejected with the decoder's error, a \<^verbatim>\<open>CorruptInputError\<close>; a token that decodes to at
  least 32 bytes but not to 64 is rejected with the error \<^verbatim>\<open>hmac not equal\<close>.
\<close>

theorem ValidateID_rejections:
  "(DecodeString t = (d, Some e) \<longrightarrow>
      (\<exists>k. e = CorruptInputError k) \<and>
      ValidateID t signingKey = Returns (InvalidSessionID, Some e)) \<and>
   (DecodeString t = (d, None) \<and> idLength \<le> length d \<and> length d \<noteq> idLength + 32 \<longrightarrow>
      ValidateID t signingKey =
        Returns (InvalidSessionID, Some (ErrorString ''hmac not equal'')))"
  by (auto dest: DecodeString_error simp: ValidateID_decode_error ValidateID_wrong_length)

theorem ValidateID_rejections_witness:
  "DecodeString ''not-base64!!'' =
     ([158, 139, 126, 109, 171, 30], Some (CorruptInputError 10)) \<and>
   ValidateID ''not-base64!!'' ''k'' = Returns (InvalidSessionID, Some (CorruptInputError 10)) \<and>
   DecodeString ''AAAAAAAAAAAAAAAAAAAAAAAAAAAAAAAAAAAAAAAAAAAA'' = (replicate 33 0, None) \<and>
   idLength \<le> length (replicate 33 (0 :: byte)) \<and>
   length (replicate 33 (0 :: byte)) \<noteq> idLength + 32 \<and>
   ValidateID ''AAAAAAAAAAAAAAAAAAAAAAAAAAAAAAAAAAAAAAAAAAAA'' ''k'' =
     Returns (InvalidSessionID, Some (ErrorString ''hmac not equal''))"
  using ValidateID_rejections [of "''not-base64!!''" "[158, 139, 126, 109, 171, 30]"
          "CorruptInputError 10" "''k''"]
        ValidateID_rejections [of "''AAAAAAAAAAAAAAAAAAAAAAAAAAAAAAAAAAAAAAAAAAAA''"
          "replicate 33 0" "CorruptInputError 0" "''k''"]
  by (simp add: DecodeString_not_base64 DecodeString_33_zero_bytes idLength_def)

subsection \<open>The round trip\<close>

text \<open>
  Claim C6: for every non-empty signing key, when \<^verbatim>\<open>NewSessionID\<close> succeeds and returns the
  token \<open>t\<close>, \<^verbatim>\<open>ValidateID\<close> of \<open>t\<close> under the same key succeeds and returns \<open>t\<close>.
\<close>

theorem mint_then_validate:
  assumes "signingKey \<noteq> []" and "NewSessionID signingKey st = ((t, None), st')"
  shows "ValidateID t signingKey = Returns (t, None)"
proof -
  from assms have enough: "idLength \<le> length (randReader st)"
    by (auto simp: NewSessionID_cases split: if_splits)
  with assms have
    "t = EncodeToString (take idLength (randReader st) @ GenerateRandomHMAC signingKey)"
    by (auto simp: NewSessionID_cases)
  moreover from enough have "length (take idLength (randReader st)) = idLength" by simp
  ultimately show ?thesis by (simp only: ValidateID_accepts)
qed

theorem mint_then_validate_witness:
  "''k'' \<noteq> [] \<and>
   NewSessionID ''k'' \<lparr>generatedSID = [], randReader = replicate 32 0\<rparr> =
     ((''AAAAAAAAAAAAAAAAAAAAAAAAAAAAAAAAAAAAAAAAAACLuZDECn1hy5dZepQhJQJb5QrIvrdENuNzW5iJOn9mIA=='',
       None),
      \<lparr>generatedSID =
         ''AAAAAAAAAAAAAAAAAAAAAAAAAAAAAAAAAAAAAAAAAACLuZDECn1hy5dZepQhJQJb5QrIvrdENuNzW5iJOn9mIA=='',
       randReader = []\<rparr>) \<and>
   ValidateID
     ''AAAAAAAAAAAAAAAAAAAAAAAAAAAAAAAAAAAAAAAAAACLuZDECn1hy5dZepQhJQJb5QrIvrdENuNzW5iJOn9mIA==''
     ''k'' =
     Returns
      (''AAAAAAAAAAAAAAAAAAAAAAAAAAAAAAAAAAAAAAAAAACLuZDECn1hy5dZepQhJQJb5QrIvrdENuNzW5iJOn9mIA=='',
       None)"
proof -
  have key: "''k'' \<noteq> []" by simp
  from mint_then_validate [OF key mint_k] mint_k key show ?thesis by (simp only: simp_thms)
qed

subsection \<open>The package-level variable\<close>

text \<open>
  Claim C7 says that minting changes no shared variable. Minting with the key \<^verbatim>\<open>"k"\<close>
  changes \<^verbatim>\<open>generatedSID\<close> from the empty string to the minted token.
\<close>

theorem NewSessionID_changes_generatedSID:
  "generatedSID \<lparr>generatedSID = [], randReader = replicate 32 0\<rparr> = [] \<and>
   generatedSID (snd (NewSessionID ''k'' \<lparr>generatedSID = [], randReader = replicate 32 0\<rparr>)) =
     ''AAAAAAAAAAAAAAAAAAAAAAAAAAAAAAAAAAAAAAAAAACLuZDECn1hy5dZepQhJQJb5QrIvrdENuNzW5iJOn9mIA==''"
  by (simp add: mint_k)

text \<open>
  Claim C7 as amended: a call of \<^verbatim>\<open>NewSessionID\<close> that succeeds takes \<^verbatim>\<open>idLength\<close> bytes
  from the random source and stores the minted token in the package-level variable
  \<^verbatim>\<open>generatedSID\<close>; a call that fails changes nothing. Nothing else is written, and no
  other registry of issued identifiers is kept. (\<^verbatim>\<open>ValidateID\<close> reads no variable of the
  package: it is a function of the token and the signing key alone.)
\<close>

theorem NewSessionID_effect:
  assumes "NewSessionID signingKey st = ((sid, err), st')"
  shows "(err = None \<longrightarrow>
            st' = st\<lparr>randReader := drop idLength (randReader st), generatedSID := sid\<rparr>) \<and>
         (err \<noteq> None \<longrightarrow> st' = st)"
  using assms by (auto simp: NewSessionID_cases split: if_splits)

theorem NewSessionID_effect_witness:
  "NewSessionID ''k'' \<lparr>generatedSID = ''old'', randReader = replicate 40 0\<rparr> =
     ((EncodeToString (replicate 32 0 @ GenerateRandomHMAC ''k''), None),
      \<lparr>generatedSID = EncodeToString (replicate 32 0 @ GenerateRandomHMAC ''k''),
       randReader = replicate 8 0\<rparr>) \<and>
   NewSessionID [] \<lparr>generatedSID = ''old'', randReader = replicate 40 0\<rparr> =
     ((InvalidSessionID, Some (ErrorString ''not signing key'')),
      \<lparr>generatedSID = ''old'', randReader = replicate 40 0\<rparr>)"
proof -
  have a: "NewSessionID ''k'' \<lparr>generatedSID = ''old'', randReader = replicate 40 0\<rparr> =
     ((EncodeToString (replicate 32 0 @ GenerateRandomHMAC ''k''), None),
      \<lparr>generatedSID = EncodeToString (replicate 32 0 @ GenerateRandomHMAC ''k''),
       randReader = replicate 8 0\<rparr>)"
    by (simp add: NewSessionID_cases idLength_def)
  have b: "NewSessionID [] \<lparr>generatedSID = ''old'', randReader = replicate 40 0\<rparr> =
     ((InvalidSessionID, Some (ErrorString ''not signing key'')),
      \<lparr>generatedSID = ''old'', randReader = replicate 40 0\<rparr>)"
    by (simp add: NewSessionID_cases)
  from NewSessionID_effect [OF a] NewSessionID_effect [OF b] a b show ?thesis by simp
qed

end
